theory Spec2Isabelle
  imports Main "HOL-Library.AList"
begin

section \<open>Errors\<close>

text \<open>
  The exceptions the modelled code raises. A function that can raise returns a sum,
  with \<open>Inl\<close> for the exception.
\<close>

datatype error =
    KeyError
  | ValueError
  | TypeError
  | FileNotFoundError
  | IsADirectoryError
  | BrokenPipeError
  | AttributeError
  | BackendError string
  | UnsupportedOperationError string
  | Exception string

section \<open>Slurm backend (gwf/backends/slurm.py)\<close>

subsection \<open>Text helpers: \<open>str.strip\<close>, \<open>str.split\<close>, \<open>str.join\<close>\<close>

text \<open>
  \<open>strip\<close> removes the six ASCII whitespace characters from both ends, as it does
  for \<open>bytes\<close> and for the \<open>str\<close> of Python 2.
\<close>

definition is_space :: "char \<Rightarrow> bool" where
  "is_space c = (c \<in> set [CHR '' '', CHR 0x09, CHR 0x0A, CHR 0x0B, CHR 0x0C, CHR 0x0D])"

definition strip :: "string \<Rightarrow> string" where
  "strip s = rev (dropWhile is_space (rev (dropWhile is_space s)))"

fun split_on :: "char \<Rightarrow> string \<Rightarrow> string list" where
  "split_on c [] = [[]]"
| "split_on c (x # xs) =
     (if x = c then [] # split_on c xs
      else (case split_on c xs of
              [] \<Rightarrow> [[x]]
            | w # ws \<Rightarrow> (x # w) # ws))"

fun join :: "string \<Rightarrow> string list \<Rightarrow> string" where
  "join sep [] = []"
| "join sep [x] = x"
| "join sep (x # y # ys) = x @ sep @ join sep (y # ys)"

subsection \<open>The tables\<close>

definition JOB_STATE_CODES :: "(string \<times> string) list" where
  "JOB_STATE_CODES =
    [(''BF'', ''?''), (''CA'', ''?''), (''CD'', ''?''), (''CF'', ''R''), (''CG'', ''R''),
     (''F'', ''?''), (''NF'', ''?''), (''PD'', ''Q''), (''PR'', ''?''), (''R'', ''R''),
     (''S'', ''R''), (''TO'', ''?''), (''SE'', ''Q'')]"

definition OPTION_TABLE :: "(string \<times> string) list" where
  "OPTION_TABLE =
    [(''nodes'', ''-N ''), (''cores'', ''-c ''), (''memory'', ''--mem=''),
     (''walltime'', ''-t ''), (''queue'', ''-p ''), (''account'', ''-A ''),
     (''constraint'', ''-C ''), (''mail_type'', ''--mail-type=''),
     (''mail_user'', ''--mail-user='')]"

definition supported_options :: "string set" where
  "supported_options = set (map fst OPTION_TABLE)"

subsection \<open>\<open>_find_exe\<close>\<close>

text \<open>\<open>find_executable\<close> is the standard library's; it is a parameter here.\<close>

definition find_exe :: "(string \<Rightarrow> string option) \<Rightarrow> string \<Rightarrow> error + string" where
  "find_exe find_executable name =
     (case find_executable name of
        None \<Rightarrow> Inl (BackendError (''Could not find executable \"'' @ name @ ''\".''))
      | Some exe \<Rightarrow> Inr exe)"

subsection \<open>The file system\<close>

text \<open>
  A file system is the contents of its files (text) and the set of its directories.
  The parent of a path is the text before its last slash; the empty parent is the
  working directory, which exists. Opening a file for writing creates or truncates
  it; it raises when the parent directory is missing or the path is a directory.
  Permissions and device errors are not part of this model.
\<close>

record filesystem =
  files :: "string \<Rightarrow> string option"
  dirs :: "string set"




definition open_r :: "string \<Rightarrow> filesystem \<Rightarrow> error + string" where
  "open_r path fs =
     (if path \<in> dirs fs then Inl IsADirectoryError
      else (case files fs path of
              None \<Rightarrow> Inl FileNotFoundError
            | Some contents \<Rightarrow> Inr contents))"


subsection \<open>\<open>json.dump\<close> and \<open>json.load\<close> on a dictionary of strings\<close>

text \<open>
  The standard library's encoder and decoder, for the documents a job database is
  written as: an object whose keys and values are strings. A dictionary is the list
  of its items in insertion order. A character is its code point, below 256.

  The encoder writes a string between double quotes. It escapes the backslash and
  the double quote with a backslash, writes backspace, form feed, newline,
  carriage return and tab as \<open>\b\<close>, \<open>\f\<close>, \<open>\n\<close>, \<open>\r\<close>, \<open>\t\<close>, leaves the other
  characters from space to tilde as they are, and writes every other character as
  \<open>\u\<close> and four hexadecimal digits. Items are separated by a comma and a space,
  key and value by a colon and a space.
\<close>

definition hex_digit :: "nat \<Rightarrow> char" where
  "hex_digit n = (if n < 10 then char_of (48 + n) else char_of (87 + n))"

definition escape :: "char \<Rightarrow> string" where
  "escape c =
     (if c = CHR 0x22 then [CHR 0x5C, CHR 0x22]
      else if c = CHR 0x5C then [CHR 0x5C, CHR 0x5C]
      else if c = CHR 0x08 then [CHR 0x5C, CHR ''b'']
      else if c = CHR 0x0C then [CHR 0x5C, CHR ''f'']
      else if c = CHR 0x0A then [CHR 0x5C, CHR ''n'']
      else if c = CHR 0x0D then [CHR 0x5C, CHR ''r'']
      else if c = CHR 0x09 then [CHR 0x5C, CHR ''t'']
      else if 32 \<le> (of_char c :: nat) \<and> (of_char c :: nat) \<le> 126 then [c]
      else [CHR 0x5C, CHR ''u'', CHR ''0'', CHR ''0'',
            hex_digit ((of_char c :: nat) div 16), hex_digit ((of_char c :: nat) mod 16)])"

definition encode_string :: "string \<Rightarrow> string" where
  "encode_string s = CHR 0x22 # concat (map escape s) @ [CHR 0x22]"

definition encode_item :: "string \<times> string \<Rightarrow> string" where
  "encode_item item = encode_string (fst item) @ '': '' @ encode_string (snd item)"

definition json_dump :: "(string \<times> string) list \<Rightarrow> string" where
  "json_dump obj = ''{'' @ join '', '' (map encode_item obj) @ ''}''"

text \<open>
  The decoder. \<open>scanstring\<close> reads a string from just after its opening quote and
  returns it with the text after its closing quote; it refuses a control character
  inside the string, an unknown escape, and a \<open>\u\<close> escape that is malformed or
  names a code point from 256 on. \<open>members\<close> reads the items of an object from
  the quote of a key on, a later item replacing an earlier one with the same key.
  \<open>json_load\<close> is the object, or \<open>ValueError\<close>; in the model a document that is not
  an object of strings raises as well.
\<close>

definition unhex :: "char \<Rightarrow> nat option" where
  "unhex c =
     (let n = (of_char c :: nat)
      in if 48 \<le> n \<and> n \<le> 57 then Some (n - 48)
         else if 97 \<le> n \<and> n \<le> 102 then Some (n - 87)
         else if 65 \<le> n \<and> n \<le> 70 then Some (n - 55)
         else None)"

definition decode_uXXXX :: "char \<Rightarrow> char \<Rightarrow> char \<Rightarrow> char \<Rightarrow> char option" where
  "decode_uXXXX h1 h2 h3 h4 =
     (case (unhex h1, unhex h2, unhex h3, unhex h4) of
        (Some a, Some b, Some c, Some d) \<Rightarrow>
          if ((a * 16 + b) * 16 + c) * 16 + d < 256
          then Some (char_of (((a * 16 + b) * 16 + c) * 16 + d))
          else None
      | _ \<Rightarrow> None)"

definition unescape :: "char \<Rightarrow> char option" where
  "unescape e =
     (if e = CHR 0x22 then Some (CHR 0x22)
      else if e = CHR 0x5C then Some (CHR 0x5C)
      else if e = CHR ''/'' then Some (CHR ''/'')
      else if e = CHR ''b'' then Some (CHR 0x08)
      else if e = CHR ''f'' then Some (CHR 0x0C)
      else if e = CHR ''n'' then Some (CHR 0x0A)
      else if e = CHR ''r'' then Some (CHR 0x0D)
      else if e = CHR ''t'' then Some (CHR 0x09)
      else None)"

fun scanstring :: "string \<Rightarrow> (string \<times> string) option" where
  "scanstring [] = None"
| "scanstring (c # cs) =
     (if c = CHR 0x22 then Some ([], cs)
      else if c = CHR 0x5C then
        (case cs of
           [] \<Rightarrow> None
         | e # cs1 \<Rightarrow>
             if e = CHR ''u'' then
               (case cs1 of
                  h1 # h2 # h3 # h4 # cs2 \<Rightarrow>
                    (case decode_uXXXX h1 h2 h3 h4 of
                       None \<Rightarrow> None
                     | Some ch \<Rightarrow>
                         (case scanstring cs2 of
                            None \<Rightarrow> None
                          | Some (s, rest) \<Rightarrow> Some (ch # s, rest)))
                | _ \<Rightarrow> None)
             else
               (case unescape e of
                  None \<Rightarrow> None
                | Some ch \<Rightarrow>
                    (case scanstring cs1 of
                       None \<Rightarrow> None
                     | Some (s, rest) \<Rightarrow> Some (ch # s, rest))))
      else if (of_char c :: nat) < 32 then None
      else (case scanstring cs of
              None \<Rightarrow> None
            | Some (s, rest) \<Rightarrow> Some (c # s, rest)))"

definition json_space :: "char \<Rightarrow> bool" where
  "json_space c = (c = CHR '' '' \<or> c = CHR 0x09 \<or> c = CHR 0x0A \<or> c = CHR 0x0D)"

definition skip_ws :: "string \<Rightarrow> string" where
  "skip_ws text = dropWhile json_space text"

text \<open>
  One item: the key, the colon, the value, and the text that follows the value
  (white space skipped).
\<close>

definition object_member :: "string \<Rightarrow> ((string \<times> string) \<times> string) option" where
  "object_member text =
     (case text of
        [] \<Rightarrow> None
      | q # t1 \<Rightarrow>
          if q \<noteq> CHR 0x22 then None
          else (case scanstring t1 of
                  None \<Rightarrow> None
                | Some (key, t2) \<Rightarrow>
                    (case skip_ws t2 of
                       [] \<Rightarrow> None
                     | colon # t3 \<Rightarrow>
                         if colon \<noteq> CHR '':'' then None
                         else (case skip_ws t3 of
                                 [] \<Rightarrow> None
                               | q' # t4 \<Rightarrow>
                                   if q' \<noteq> CHR 0x22 then None
                                   else (case scanstring t4 of
                                           None \<Rightarrow> None
                                         | Some (val, t5) \<Rightarrow> Some ((key, val), skip_ws t5))))))"

function members :: "(string \<times> string) list \<Rightarrow> string \<Rightarrow> (string \<times> string) list option" where
  "members acc text =
     (case object_member text of
        None \<Rightarrow> None
      | Some ((key, val), after) \<Rightarrow>
          (case after of
             [] \<Rightarrow> None
           | c # t6 \<Rightarrow>
               if c = CHR '','' then members (AList.update key val acc) (skip_ws t6)
               else if c = CHR ''}'' then
                 (if skip_ws t6 = [] then Some (AList.update key val acc) else None)
               else None))"
  by pat_completeness auto

termination
proof (relation "measure (\<lambda>(acc, text). length text)")
  show "wf (measure (\<lambda>(acc, text). length text))" by simp
next
  have scan: "scanstring s = Some (x, r) \<Longrightarrow> length r < length s" for s x r
  proof (induction s arbitrary: x r rule: scanstring.induct)
    case 1
    then show ?case by simp
  next
    case (2 c cs)
    show ?case
    proof (cases "c = CHR 0x22")
      case True
      with "2.prems" show ?thesis by simp
    next
      case nq: False
      show ?thesis
      proof (cases "c = CHR 0x5C")
        case True
        show ?thesis
        proof (cases cs)
          case Nil
          with "2.prems" nq True show ?thesis by simp
        next
          case (Cons e cs1)
          show ?thesis
          proof (cases "e = CHR ''u''")
            case u: True
            from "2.prems" nq True Cons u obtain h1 h2 h3 h4 cs2 ch s' where
              cs1: "cs1 = h1 # h2 # h3 # h4 # cs2" and
              dec: "decode_uXXXX h1 h2 h3 h4 = Some ch" and
              rec: "scanstring cs2 = Some (s', r)"
              by (auto split: list.splits option.splits)
            from "2.IH"(1) [OF nq True Cons u cs1 refl refl refl dec rec]
            show ?thesis using Cons cs1 by simp
          next
            case nu: False
            from "2.prems" nq True Cons nu obtain ch s' where
              un: "unescape e = Some ch" and rec: "scanstring cs1 = Some (s', r)"
              by (auto split: option.splits)
            from "2.IH"(2) [OF nq True Cons nu un rec]
            show ?thesis using Cons by simp
          qed
        qed
      next
        case nb: False
        from "2.prems" nq nb obtain s' where
          ok: "\<not> (of_char c :: nat) < 32" and rec: "scanstring cs = Some (s', r)"
          by (auto split: option.splits if_splits)
        from "2.IH"(3) [OF nq nb ok rec] show ?thesis by simp
      qed
    qed
  qed
  have skip: "length (skip_ws t) \<le> length t" for t
    by (simp add: skip_ws_def length_dropWhile_le)
  have mem: "length r < length t" if "object_member t = Some (kv, r)" for t kv r
  proof -
    from that obtain q t1 k t2 colon t3 q' t4 v t5 where
      parts: "t = q # t1" "scanstring t1 = Some (k, t2)" "skip_ws t2 = colon # t3"
        "skip_ws t3 = q' # t4" "scanstring t4 = Some (v, t5)" "r = skip_ws t5"
      unfolding object_member_def
      by (auto split: list.splits if_splits option.splits prod.splits)
    have "length t2 < length t1" using scan parts(2) by blast
    moreover have "length (colon # t3) \<le> length t2" using skip [of t2] parts(3) by simp
    moreover have "length (q' # t4) \<le> length t3" using skip [of t3] parts(4) by simp
    moreover have "length t5 < length t4" using scan parts(5) by blast
    moreover have "length r \<le> length t5" using skip [of t5] parts(6) by simp
    ultimately show ?thesis using parts(1) by simp
  qed
  fix acc :: "(string \<times> string) list" and tx x2 kv rst k v c t6
  assume a: "object_member tx = Some x2" "(kv, rst) = x2" "(k, v) = kv" "rst = c # t6"
    "c = CHR '',''"
  from a(1,2) have "object_member tx = Some (kv, rst)" by simp
  from mem [OF this] a(4) skip [of t6]
  show "((AList.update k v acc, skip_ws t6), acc, tx) \<in> measure (\<lambda>(acc, text). length text)"
    by simp
qed

declare members.simps [simp del]

definition json_load :: "string \<Rightarrow> error + (string \<times> string) list" where
  "json_load text =
     (case skip_ws text of
        [] \<Rightarrow> Inl ValueError
      | c # t \<Rightarrow>
          if c \<noteq> CHR ''{'' then Inl ValueError
          else (case skip_ws t of
                  [] \<Rightarrow> Inl ValueError
                | c' # t' \<Rightarrow>
                    if c' = CHR ''}'' then (if skip_ws t' = [] then Inr [] else Inl ValueError)
                    else (case members [] (c' # t') of
                            None \<Rightarrow> Inl ValueError
                          | Some obj \<Rightarrow> Inr obj)))"

subsection \<open>The job database file: \<open>dump_atomic\<close> and \<open>_read_job_db\<close>\<close>





definition read_job_db :: "string \<Rightarrow> filesystem \<Rightarrow> error + (string \<times> string) list" where
  "read_job_db path fs =
     (case open_r path fs of
        Inl e \<Rightarrow> if e = FileNotFoundError then Inr [] else Inl e
      | Inr contents \<Rightarrow> json_load contents)"

subsection \<open>\<open>SlurmBackend._live_job_states\<close>\<close>

text \<open>
  What iterating the pipe of \<open>subprocess.Popen\<close> yields. The code opens the pipe
  without a text mode: under Python 3 every line is a \<open>bytes\<close> object, and
  \<open>line.strip().split(';')\<close>, whose separator is a \<open>str\<close>, raises \<open>TypeError\<close>.
  Under Python 2, or from a pipe opened in text mode, a line is a \<open>str\<close>.
\<close>

datatype pipe_line = BytesLine string | StrLine string

text \<open>
  The body of the loop over the lines of \<open>squeue\<close>'s output: one line updates the
  result, or raises (\<open>TypeError\<close> on a line of bytes, \<open>ValueError\<close> when the line
  does not unpack into three fields, \<open>KeyError\<close> when the state code is not in the
  table).
\<close>

definition live_row :: "(string \<Rightarrow> string option) \<Rightarrow> pipe_line \<Rightarrow> error + (string \<Rightarrow> string option)" where
  "live_row result line =
     (case line of
        BytesLine b \<Rightarrow> Inl TypeError
      | StrLine t \<Rightarrow>
          (case split_on CHR '';'' (strip t) of
             [job_id, state, depends] \<Rightarrow>
               (case map_of JOB_STATE_CODES state of
                  None \<Rightarrow> Inl KeyError
                | Some simple_state \<Rightarrow>
                    if simple_state = ''Q'' \<and> depends \<noteq> ''''
                    then Inr (result(job_id \<mapsto> ''H''))
                    else Inr (result(job_id \<mapsto> simple_state)))
           | _ \<Rightarrow> Inl ValueError))"

fun live_rows :: "(string \<Rightarrow> string option) \<Rightarrow> pipe_line list \<Rightarrow> error + (string \<Rightarrow> string option)" where
  "live_rows result [] = Inr result"
| "live_rows result (line # lines) =
     (case live_row result line of
        Inl e \<Rightarrow> Inl e
      | Inr result' \<Rightarrow> live_rows result' lines)"

definition live_job_states_of :: "pipe_line list \<Rightarrow> error + (string \<Rightarrow> string option)" where
  "live_job_states_of stdout = live_rows Map.empty stdout"

subsection \<open>\<open>SlurmBackend.get_state_of_jobs\<close> (gwf/backends.py)\<close>

text \<open>
  The older implementation starts from \<open>False\<close> for every job asked about and wraps
  the loop in \<open>try: ... except: pass\<close>: an exception (the \<open>TypeError\<close> on a line
  of bytes as well) ends the loop and the entries written so far are returned.
\<close>

datatype state_value = PyFalse | PyStr string

definition map_state :: "(string \<times> string) list" where
  "map_state =
    [(''BF'', ''?''), (''CA'', ''?''), (''CD'', ''?''), (''CF'', ''R''), (''CG'', ''R''),
     (''F'', ''?''), (''NF'', ''?''), (''PD'', ''Q''), (''PR'', ''?''), (''R'', ''R''),
     (''S'', ''R''), (''TO'', ''?''), (''SE'', ''Q'')]"

fun state_rows :: "(string \<Rightarrow> state_value option) \<Rightarrow> pipe_line list \<Rightarrow> (string \<Rightarrow> state_value option)" where
  "state_rows result [] = result"
| "state_rows result (BytesLine b # lines) = result"
| "state_rows result (StrLine t # lines) =
     (case split_on CHR '';'' (strip t) of
        [job_id, state, depends] \<Rightarrow>
          (case map_of map_state state of
             None \<Rightarrow> result
           | Some simple_state \<Rightarrow>
               if simple_state = ''Q'' \<and> depends \<noteq> ''''
               then state_rows (result(job_id \<mapsto> PyStr ''H'')) lines
               else state_rows (result(job_id \<mapsto> PyStr simple_state)) lines)
      | _ \<Rightarrow> result)"

definition get_state_of_jobs :: "string list \<Rightarrow> pipe_line list \<Rightarrow> (string \<Rightarrow> state_value option)" where
  "get_state_of_jobs job_ids stdout =
     state_rows (map_of (map (\<lambda>job_id. (job_id, PyFalse)) job_ids)) stdout"

subsection \<open>\<open>SlurmBackend.configure\<close> and \<open>SlurmBackend.cancel\<close>\<close>

record slurm_backend =
  squeue :: string
  sbatch :: string
  scancel :: string
  job_db :: "string \<Rightarrow> string option"
  live_job_states :: "string \<Rightarrow> string option"

text \<open>
  \<open>configure\<close> reads its surroundings: the executables found on the path, the file
  system and what \<open>squeue\<close> prints.
\<close>

definition configure ::
  "(string \<Rightarrow> string option) \<Rightarrow> filesystem \<Rightarrow> pipe_line list \<Rightarrow> error + slurm_backend" where
  "configure find_executable fs stdout =
     (case find_exe find_executable ''squeue'' of
        Inl e \<Rightarrow> Inl e
      | Inr squeue_exe \<Rightarrow>
     (case find_exe find_executable ''sbatch'' of
        Inl e \<Rightarrow> Inl e
      | Inr sbatch_exe \<Rightarrow>
     (case find_exe find_executable ''scancel'' of
        Inl e \<Rightarrow> Inl e
      | Inr scancel_exe \<Rightarrow>
     (case read_job_db ''.gwf/slurm-backend-jobdb.json'' fs of
        Inl e \<Rightarrow> Inl e
      | Inr db \<Rightarrow>
     (case live_job_states_of stdout of
        Inl e \<Rightarrow> Inl e
      | Inr live \<Rightarrow>
          Inr \<lparr>squeue = squeue_exe, sbatch = sbatch_exe, scancel = scancel_exe,
               job_db = (\<lambda>target_name.
                 case map_of db target_name of
                   None \<Rightarrow> None
                 | Some job_id \<Rightarrow>
                     (case live job_id of None \<Rightarrow> None | Some st \<Rightarrow> Some st)),
               live_job_states = live\<rparr>)))))"

text \<open>
  \<open>cancel\<close> returns the command lines it spawns (none, or one call of \<open>scancel\<close>).
\<close>

definition cancel :: "slurm_backend \<Rightarrow> string \<Rightarrow> error + string list list" where
  "cancel b target_name =
     (let target_job_id = (case job_db b target_name of None \<Rightarrow> ''?'' | Some j \<Rightarrow> j)
      in if live_job_states b target_job_id \<noteq> None
         then Inr [[scancel b, ''-j'', target_job_id]]
         else Inr [])"

text \<open>\<open>LocalOps.cancel_job\<close> (gwf/backends/local.py).\<close>

definition cancel_job :: "string \<Rightarrow> error + unit" where
  "cancel_job job_id = Inl (UnsupportedOperationError ''cancel'')"

subsection \<open>Submission scripts: \<open>SlurmBackend._compile_script\<close>\<close>

text \<open>
  A target's options are a dictionary, iterated in its insertion order: an association
  list. How \<open>str.format\<close> renders an option's value is the parameter \<open>fmt\<close>.
\<close>

record 'v target =
  target_name :: string
  target_working_dir :: string
  target_spec :: string
  target_options :: "(string \<times> 'v) list"

fun compile_options :: "('v \<Rightarrow> string) \<Rightarrow> string list \<Rightarrow> (string \<times> 'v) list \<Rightarrow> error + string list" where
  "compile_options fmt out [] = Inr out"
| "compile_options fmt out ((option_name, option_value) # rest) =
     (if option_name \<notin> supported_options then compile_options fmt out rest
      else (case map_of OPTION_TABLE option_name of
              None \<Rightarrow> Inl KeyError
            | Some flag \<Rightarrow>
                compile_options fmt (out @ [''#SBATCH '' @ flag @ fmt option_value]) rest))"

definition compile_script :: "('v \<Rightarrow> string) \<Rightarrow> 'v target \<Rightarrow> error + string" where
  "compile_script fmt target =
     (case compile_options fmt [''#!/bin/bash''] (target_options target) of
        Inl e \<Rightarrow> Inl e
      | Inr out \<Rightarrow>
          Inr (join [CHR 0x0A]
                 (out @
                  ['''',
                   ''### Generated by GWF'',
                   ''cd '' @ target_working_dir target,
                   ''export GWF_JOBID=$SLURM_JOBID'',
                   ''export GWF_TARGET_NAME=\"'' @ target_name target @ ''\"'',
                   ''set -e'',
                   '''',
                   target_spec target])))"

subsection \<open>\<open>SlurmBackend.write_script_header\<close> (gwf/backends.py)\<close>

text \<open>
  The older implementation indexes the options by key; the lines it prints are
  returned. A missing \<open>nodes\<close>, \<open>cores\<close>, \<open>memory\<close> or \<open>walltime\<close> raises
  \<open>KeyError\<close>.
\<close>

definition write_script_header :: "('v \<Rightarrow> string) \<Rightarrow> (string \<Rightarrow> 'v option) \<Rightarrow> error + string list" where
  "write_script_header fmt options =
     (case options ''nodes'' of None \<Rightarrow> Inl KeyError | Some nodes \<Rightarrow>
     (case options ''cores'' of None \<Rightarrow> Inl KeyError | Some cores \<Rightarrow>
     (case options ''memory'' of None \<Rightarrow> Inl KeyError | Some memory \<Rightarrow>
     (case options ''walltime'' of None \<Rightarrow> Inl KeyError | Some walltime \<Rightarrow>
        Inr ([''#SBATCH -N '' @ fmt nodes,
              ''#SBATCH -c '' @ fmt cores,
              ''#SBATCH --mem='' @ fmt memory,
              ''#SBATCH -t '' @ fmt walltime]
             @ (case options ''queue'' of None \<Rightarrow> [] | Some v \<Rightarrow> [''#SBATCH -p '' @ fmt v])
             @ (case options ''account'' of None \<Rightarrow> [] | Some v \<Rightarrow> [''#SBATCH -A '' @ fmt v])
             @ (case options ''constraint'' of None \<Rightarrow> [] | Some v \<Rightarrow> [''#SBATCH -C '' @ fmt v])
             @ (case options ''mail_type'' of None \<Rightarrow> [] | Some v \<Rightarrow> [''#SBATCH --mail-type='' @ fmt v])
             @ (case options ''mail_user'' of None \<Rightarrow> [] | Some v \<Rightarrow> [''#SBATCH --mail-user='' @ fmt v]))))))"

text \<open>
  The layout as the specification words it: one directive line per option present,
  in the fixed order nodes, cores, memory, walltime, queue, account, constraint,
  mail type, mail user, each with its flag from the option table.
\<close>

definition directive_order :: "string list" where
  "directive_order =
     [''nodes'', ''cores'', ''memory'', ''walltime'', ''queue'', ''account'',
      ''constraint'', ''mail_type'', ''mail_user'']"

definition directive :: "('v \<Rightarrow> string) \<Rightarrow> string \<Rightarrow> 'v \<Rightarrow> string" where
  "directive fmt option_name option_value =
     ''#SBATCH '' @ (case map_of OPTION_TABLE option_name of None \<Rightarrow> [] | Some flag \<Rightarrow> flag)
       @ fmt option_value"

definition fixed_order_directives :: "('v \<Rightarrow> string) \<Rightarrow> (string \<Rightarrow> 'v option) \<Rightarrow> string list" where
  "fixed_order_directives fmt options =
     concat (map (\<lambda>option_name.
                    case options option_name of
                      None \<Rightarrow> []
                    | Some option_value \<Rightarrow> [directive fmt option_name option_value])
                 directive_order)"

definition script_trailer :: "'v target \<Rightarrow> string list" where
  "script_trailer target =
     ['''',
      ''### Generated by GWF'',
      ''cd '' @ target_working_dir target,
      ''export GWF_JOBID=$SLURM_JOBID'',
      ''export GWF_TARGET_NAME=\"'' @ target_name target @ ''\"'',
      ''set -e'',
      '''',
      target_spec target]"

section \<open>Local backend (gwf/backends/local.py)\<close>

datatype LocalStatus = UNKNOWN | SUBMITTED | RUNNING | FAILED | COMPLETED

text \<open>\<open>status.name\<close> and the lookup \<open>LocalStatus[name]\<close>, which raises on other names.\<close>

fun status_name :: "LocalStatus \<Rightarrow> string" where
  "status_name UNKNOWN = ''UNKNOWN''"
| "status_name SUBMITTED = ''SUBMITTED''"
| "status_name RUNNING = ''RUNNING''"
| "status_name FAILED = ''FAILED''"
| "status_name COMPLETED = ''COMPLETED''"

definition status_of_name :: "string \<Rightarrow> LocalStatus option" where
  "status_of_name n =
     (if n = ''UNKNOWN'' then Some UNKNOWN
      else if n = ''SUBMITTED'' then Some SUBMITTED
      else if n = ''RUNNING'' then Some RUNNING
      else if n = ''FAILED'' then Some FAILED
      else if n = ''COMPLETED'' then Some COMPLETED
      else None)"

record Task =
  task_id :: string
  name :: string
  working_dir :: string
  spec :: string
  dependencies :: "string set"
  stdout_path :: string
  stderr_path :: string

text \<open>The messages of the wire protocol, one constructor per message type.\<close>

datatype message =
    JoinWorker string
  | LeaveWorker string
  | SubmitTask string string string string "string list" string string
  | UpdateTaskState string string
  | GetTaskStates
  | TaskStates "string \<Rightarrow> string option"
  | RunTask Task
  | Shutdown
  | Close

subsection \<open>Server\<close>

text \<open>
  The server's tables. \<open>joined_workers\<close> and \<open>used_workers\<close> are dictionaries whose
  items and values the code walks, so they are association lists in insertion order;
  a joined worker is its connection (a number). \<open>sent\<close> logs every message the server
  writes, with the connection it writes to.
\<close>

record Server =
  tasks :: "string \<Rightarrow> Task option"
  task_states :: "string \<Rightarrow> LocalStatus option"
  pending_tasks :: "string set"
  joined_workers :: "(string \<times> nat) list"
  used_workers :: "(string \<times> string) list"
  sent :: "(nat \<times> message) list"

definition init_server :: Server where
  "init_server =
     \<lparr>tasks = Map.empty, task_states = Map.empty, pending_tasks = {},
      joined_workers = [], used_workers = [], sent = []\<rparr>"

text \<open>
  A handler that raises leaves the server as it was at the raise: the result is
  \<open>Inl\<close> of the exception and that state.
\<close>

type_synonym outcome = "(error \<times> Server) + Server"

definition raised :: "outcome \<Rightarrow> error option" where
  "raised r = (case r of Inl (e, s) \<Rightarrow> Some e | Inr s \<Rightarrow> None)"

definition state_of :: "outcome \<Rightarrow> Server" where
  "state_of r = (case r of Inl (e, s) \<Rightarrow> s | Inr s \<Rightarrow> s)"

text \<open>The local variables of one scheduling pass.\<close>

record schedule_pass =
  failed_tasks :: "string set"
  scheduled_tasks :: "string set"
  pass_used_workers :: "(string \<times> string) list"
  outbox :: "(nat \<times> message) list"

text \<open>
  \<open>_pending_tasks\<close> is a set; the order in which the loop visits it is not fixed by
  the code, so the pass takes it as \<open>order\<close>, a list that enumerates the pending set.
\<close>

definition iterates :: "string list \<Rightarrow> string set \<Rightarrow> bool" where
  "iterates order S = (distinct order \<and> set order = S)"

fun schedule_loop :: "Server \<Rightarrow> string list \<Rightarrow> schedule_pass \<Rightarrow> (error \<times> schedule_pass) + schedule_pass" where
  "schedule_loop s [] p = Inr p"
| "schedule_loop s (tid # rest) p =
     (case tasks s tid of
        None \<Rightarrow> Inl (KeyError, p)
      | Some task \<Rightarrow>
          if \<exists>dep_id \<in> dependencies task. task_states s dep_id = Some FAILED
          then schedule_loop s rest (p\<lparr>failed_tasks := insert tid (failed_tasks p)\<rparr>)
          else if \<exists>dep_id \<in> dependencies task. task_states s dep_id \<noteq> Some COMPLETED
          then schedule_loop s rest p
          else (case find (\<lambda>(worker_id, worker). worker_id \<notin> set (map snd (used_workers s)))
                          (joined_workers s) of
                  None \<Rightarrow> schedule_loop s rest p
                | Some (worker_id, worker) \<Rightarrow>
                    schedule_loop s rest
                      (p\<lparr>pass_used_workers := AList.update tid worker_id (pass_used_workers p),
                         scheduled_tasks := insert tid (scheduled_tasks p),
                         outbox := outbox p @ [(worker, RunTask task)]\<rparr>)))"

text \<open>
  After the loop the pass merges its assignments into \<open>used_workers\<close>, removes the
  scheduled tasks from the pending set, and marks the failed ones and removes them.
  Both sets hold tasks the loop visited, which are pending, so \<open>remove\<close> finds them.
\<close>

definition schedule_once :: "string list \<Rightarrow> Server \<Rightarrow> outcome" where
  "schedule_once order s =
     (case schedule_loop s order
             \<lparr>failed_tasks = {}, scheduled_tasks = {}, pass_used_workers = [], outbox = []\<rparr> of
        Inl (e, p) \<Rightarrow> Inl (e, s\<lparr>sent := sent s @ outbox p\<rparr>)
      | Inr p \<Rightarrow>
          Inr (s\<lparr>used_workers :=
                    fold (\<lambda>(k, v). AList.update k v) (pass_used_workers p) (used_workers s),
                  pending_tasks := pending_tasks s - scheduled_tasks p - failed_tasks p,
                  task_states :=
                    (\<lambda>t. if t \<in> failed_tasks p then Some FAILED else task_states s t),
                  sent := sent s @ outbox p\<rparr>))"

definition handle_join_worker :: "string list \<Rightarrow> nat \<Rightarrow> string \<Rightarrow> Server \<Rightarrow> outcome" where
  "handle_join_worker order conn worker_id s =
     schedule_once order (s\<lparr>joined_workers := AList.update worker_id conn (joined_workers s)\<rparr>)"

definition handle_leave_worker :: "nat \<Rightarrow> string \<Rightarrow> Server \<Rightarrow> outcome" where
  "handle_leave_worker conn worker_id s =
     (case map_of (joined_workers s) worker_id of
        None \<Rightarrow> Inl (KeyError, s)
      | Some w \<Rightarrow> Inr (s\<lparr>joined_workers := AList.delete worker_id (joined_workers s)\<rparr>))"

definition handle_update_task_state :: "string list \<Rightarrow> nat \<Rightarrow> string \<Rightarrow> string \<Rightarrow> Server \<Rightarrow> outcome" where
  "handle_update_task_state order conn tid new_state s =
     (case status_of_name new_state of
        None \<Rightarrow> Inl (KeyError, s)
      | Some st \<Rightarrow>
          (let s1 = s\<lparr>task_states := (task_states s)(tid \<mapsto> st)\<rparr>
           in if st = COMPLETED \<or> st = FAILED
              then (case map_of (used_workers s1) tid of
                      None \<Rightarrow> Inl (KeyError, s1)
                    | Some w \<Rightarrow>
                        schedule_once order
                          (s1\<lparr>used_workers := AList.delete tid (used_workers s1)\<rparr>))
              else schedule_once order s1))"

definition handle_get_task_states :: "nat \<Rightarrow> Server \<Rightarrow> outcome" where
  "handle_get_task_states conn s =
     Inr (s\<lparr>sent := sent s @
              [(conn, TaskStates (\<lambda>k. map_option status_name (task_states s k)))]\<rparr>)"

definition handle_submit_task ::
  "string list \<Rightarrow> nat \<Rightarrow> string \<Rightarrow> string \<Rightarrow> string \<Rightarrow> string \<Rightarrow> string list \<Rightarrow> string \<Rightarrow> string
     \<Rightarrow> Server \<Rightarrow> outcome" where
  "handle_submit_task order conn tid nm wd sp deps out_path err_path s =
     (let task = \<lparr>task_id = tid, name = nm, working_dir = wd, spec = sp,
                  dependencies = set deps, stdout_path = out_path, stderr_path = err_path\<rparr>
      in schedule_once order
           (s\<lparr>tasks := (tasks s)(tid \<mapsto> task),
              task_states := (task_states s)(tid \<mapsto> SUBMITTED),
              pending_tasks := insert tid (pending_tasks s)\<rparr>))"

definition handle_close :: "nat \<Rightarrow> Server \<Rightarrow> outcome" where
  "handle_close conn s = Inr (s\<lparr>sent := sent s @ [(conn, Close)]\<rparr>)"

text \<open>
  The dispatch of \<open>_read\<close>: the handler named after the message type; a type the
  server has no handler for raises \<open>AttributeError\<close>.
\<close>

fun handle :: "nat \<Rightarrow> message \<Rightarrow> string list \<Rightarrow> Server \<Rightarrow> outcome" where
  "handle conn (JoinWorker worker_id) order s = handle_join_worker order conn worker_id s"
| "handle conn (LeaveWorker worker_id) order s = handle_leave_worker conn worker_id s"
| "handle conn (SubmitTask tid nm wd sp deps out_path err_path) order s =
     handle_submit_task order conn tid nm wd sp deps out_path err_path s"
| "handle conn (UpdateTaskState tid new_state) order s =
     handle_update_task_state order conn tid new_state s"
| "handle conn GetTaskStates order s = handle_get_task_states conn s"
| "handle conn Close order s = handle_close conn s"
| "handle conn (TaskStates m) order s = Inl (AttributeError, s)"
| "handle conn (RunTask t) order s = Inl (AttributeError, s)"
| "handle conn Shutdown order s = Inl (AttributeError, s)"

text \<open>
  The event loop on a sequence of received messages, each with the connection it
  came in on and the order in which its scheduling pass visits the pending set. An
  exception ends the loop. The runs of the code are those whose orders enumerate the
  pending set (\<open>valid_run\<close> below); what holds of every run of this function holds
  of them.
\<close>

fun run :: "(nat \<times> message \<times> string list) list \<Rightarrow> Server \<Rightarrow> outcome" where
  "run [] s = Inr s"
| "run ((conn, msg, order) # events) s =
     (case handle conn msg order s of
        Inl e \<Rightarrow> Inl e
      | Inr s' \<Rightarrow> run events s')"

text \<open>
  Whether every order of a run enumerates the pending set its pass iterates (the
  pending set after \<open>submit_task\<close> has added its task).
\<close>

fun pending_at_pass :: "message \<Rightarrow> Server \<Rightarrow> string set" where
  "pending_at_pass (SubmitTask tid nm wd sp deps out_path err_path) s = insert tid (pending_tasks s)"
| "pending_at_pass msg s = pending_tasks s"

fun valid_run :: "(nat \<times> message \<times> string list) list \<Rightarrow> Server \<Rightarrow> bool" where
  "valid_run [] s = True"
| "valid_run ((conn, msg, order) # events) s =
     (iterates order (pending_at_pass msg s) \<and>
      (case handle conn msg order s of
         Inl e \<Rightarrow> True
       | Inr s' \<Rightarrow> valid_run events s'))"

subsection \<open>Worker\<close>

text \<open>
  The worker's end of a connection: what has been written to it, and whether the
  write that would be its \<open>n\<close>-th raises (the peer is gone). \<open>Connection.send\<close>
  writes one message or raises.
\<close>

record Connection =
  written :: "message list"
  send_fails :: "nat \<Rightarrow> bool"


record Worker =
  worker_id :: string
  connection :: Connection
  shutdown_requested :: bool











section \<open>Auxiliary notions for the proofs\<close>

text \<open>
  A table of \<open>get_state_of_jobs\<close> values laid over an initial table: the entries of
  \<open>r\<close> as strings, and the initial entry where \<open>r\<close> has none.
\<close>

definition overlay ::
  "(string \<Rightarrow> state_value option) \<Rightarrow> (string \<Rightarrow> string option) \<Rightarrow> (string \<Rightarrow> state_value option)" where
  "overlay init r = (\<lambda>j. case r j of Some st \<Rightarrow> Some (PyStr st) | None \<Rightarrow> init j)"

text \<open>The pass a run of the scheduling loop ends with, raised or not.\<close>

definition pass_of :: "(error \<times> schedule_pass) + schedule_pass \<Rightarrow> schedule_pass" where
  "pass_of r = (case r of Inl (e, p) \<Rightarrow> p | Inr p \<Rightarrow> p)"

text \<open>
  A message is the dispatch of a ready task of the pass: \<open>run_task\<close> for a task the
  pass visits, none of whose dependencies is in a state other than \<open>COMPLETED\<close>.
\<close>

definition ready_task :: "Server \<Rightarrow> string list \<Rightarrow> message \<Rightarrow> bool" where
  "ready_task s order m =
     (\<exists>t task. t \<in> set order \<and> tasks s t = Some task \<and> m = RunTask task \<and>
        \<not> (\<exists>d \<in> dependencies task. task_states s d \<noteq> Some COMPLETED))"

text \<open>
  The events hold an \<open>update_task_state\<close> of task \<open>d\<close> to \<open>COMPLETED\<close>; and the
  invariant of the event loop: every task the state table has as \<open>COMPLETED\<close>, and
  every dependency of every task dispatched so far, has such an event.
\<close>

definition logged :: "(nat \<times> message \<times> string list) list \<Rightarrow> string \<Rightarrow> bool" where
  "logged events d = (\<exists>c order. (c, UpdateTaskState d ''COMPLETED'', order) \<in> set events)"

definition completed_logged :: "(nat \<times> message \<times> string list) list \<Rightarrow> Server \<Rightarrow> bool" where
  "completed_logged events s =
     ((\<forall>d. task_states s d = Some COMPLETED \<longrightarrow> logged events d) \<and>
      (\<forall>c task d. (c, RunTask task) \<in> set (sent s) \<and> d \<in> dependencies task \<longrightarrow> logged events d))"

section \<open>Scenarios\<close>

text \<open>
  Three tasks in a chain: \<open>A\<close> has no dependency, \<open>B\<close> depends on \<open>A\<close>, \<open>C\<close> on \<open>B\<close>.
\<close>

definition task_A :: Task where
  "task_A = \<lparr>task_id = ''A'', name = ''a'', working_dir = ''/w'', spec = ''true'',
             dependencies = {}, stdout_path = ''A.stdout'', stderr_path = ''A.stderr''\<rparr>"

definition task_B :: Task where
  "task_B = \<lparr>task_id = ''B'', name = ''b'', working_dir = ''/w'', spec = ''true'',
             dependencies = {''A''}, stdout_path = ''B.stdout'', stderr_path = ''B.stderr''\<rparr>"

definition task_C :: Task where
  "task_C = \<lparr>task_id = ''C'', name = ''c'', working_dir = ''/w'', spec = ''true'',
             dependencies = {''B''}, stdout_path = ''C.stdout'', stderr_path = ''C.stderr''\<rparr>"

text \<open>
  A client submits \<open>A\<close> and \<open>B\<close>, worker \<open>w1\<close> joins on connection 7 and is given
  \<open>A\<close>, and reports it running.
\<close>

definition two_task_events :: "(nat \<times> message \<times> string list) list" where
  "two_task_events =
     [(1, SubmitTask ''A'' ''a'' ''/w'' ''true'' [] ''A.stdout'' ''A.stderr'', [''A'']),
      (1, SubmitTask ''B'' ''b'' ''/w'' ''true'' [''A''] ''B.stdout'' ''B.stderr'', [''A'', ''B'']),
      (7, JoinWorker ''w1'', [''A'', ''B'']),
      (7, UpdateTaskState ''A'' ''RUNNING'', [''B''])]"

text \<open>The same with \<open>C\<close> submitted as well, and \<open>A\<close> reported failed in the end.\<close>

definition chain_events :: "(nat \<times> message \<times> string list) list" where
  "chain_events =
     [(1, SubmitTask ''A'' ''a'' ''/w'' ''true'' [] ''A.stdout'' ''A.stderr'', [''A'']),
      (1, SubmitTask ''B'' ''b'' ''/w'' ''true'' [''A''] ''B.stdout'' ''B.stderr'', [''A'', ''B'']),
      (1, SubmitTask ''C'' ''c'' ''/w'' ''true'' [''B''] ''C.stdout'' ''C.stderr'', [''A'', ''B'', ''C'']),
      (7, JoinWorker ''w1'', [''A'', ''B'', ''C'']),
      (7, UpdateTaskState ''A'' ''RUNNING'', [''B'', ''C'']),
      (7, UpdateTaskState ''A'' ''FAILED'', [''B'', ''C''])]"

text \<open>
  The server at the scheduling pass that follows a report of state \<open>st\<close> for \<open>A\<close>,
  in the scenario of two tasks: the report is recorded and the worker is free again.
\<close>

definition two_task_state :: "LocalStatus \<Rightarrow> Server" where
  "two_task_state st =
     \<lparr>tasks = [''A'' \<mapsto> task_A, ''B'' \<mapsto> task_B],
      task_states = [''A'' \<mapsto> st, ''B'' \<mapsto> SUBMITTED],
      pending_tasks = {''B''},
      joined_workers = [(''w1'', 7)],
      used_workers = [],
      sent = [(7, RunTask task_A)]\<rparr>"

text \<open>
  A connection none of whose writes raises; a worker after it has written some
  messages; and the two reports of a task.
\<close>

definition reliable :: "Connection \<Rightarrow> bool" where
  "reliable c = (\<forall>n. \<not> send_fails c n)"

definition wrote :: "Worker \<Rightarrow> message list \<Rightarrow> Worker" where
  "wrote w msgs = w\<lparr>connection := (connection w)\<lparr>written := written (connection w) @ msgs\<rparr>\<rparr>"






section \<open>The JSON encoding\<close>













lemma dump_of_two: "json_dump [(''a'', ''42''), (''b'', ''43'')] = ''{\"a\": \"42\", \"b\": \"43\"}''"
  by (simp add: json_dump_def encode_item_def encode_string_def escape_def)

lemma load_of_two: "json_load ''{\"a\": \"42\", \"b\": \"43\"}'' = Inr [(''a'', ''42''), (''b'', ''43'')]"
  by (simp add: json_load_def skip_ws_def json_space_def members.simps object_member_def unescape_def)

section \<open>The job database\<close>













section \<open>\<open>configure\<close>\<close>

text \<open>
  Claim C2. The persisted database is \<open>{a: 42, b: 43}\<close> and \<open>squeue\<close> prints one
  line, \<open>42;R;\<close>. Read from the binary pipe of Python 3 the line is bytes, and
  \<open>configure\<close> raises \<open>TypeError\<close> when it splits the line, before it filters the
  database. Read as text, \<open>configure\<close> keeps \<open>a\<close> and drops \<open>b\<close>, but the value it
  keeps for \<open>a\<close> is the job's state \<open>R\<close>, not its identifier \<open>42\<close>.
\<close>

theorem C2_configure_maps_names_to_states:
  "configure (\<lambda>name. Some (''/usr/bin/'' @ name))
      \<lparr>files = [''.gwf/slurm-backend-jobdb.json'' \<mapsto> ''{\"a\": \"42\", \"b\": \"43\"}''],
       dirs = {''.gwf''}\<rparr>
      [BytesLine (''42;R;'' @ [CHR 0x0A])] = Inl TypeError
 \<and> (case configure (\<lambda>name. Some (''/usr/bin/'' @ name))
          \<lparr>files = [''.gwf/slurm-backend-jobdb.json'' \<mapsto> ''{\"a\": \"42\", \"b\": \"43\"}''],
           dirs = {''.gwf''}\<rparr>
          [StrLine (''42;R;'' @ [CHR 0x0A])] of
      Inl e \<Rightarrow> []
    | Inr b \<Rightarrow> [job_db b ''a'', job_db b ''b''])
   = [Some ''R'', None]"
  by (simp add: configure_def find_exe_def read_job_db_def open_r_def load_of_two
        live_job_states_of_def live_row_def strip_def is_space_def JOB_STATE_CODES_def)

section \<open>The job-state mapping\<close>

lemma map_state_eq: "map_state = JOB_STATE_CODES"
  by (simp add: map_state_def JOB_STATE_CODES_def)

lemma overlay_upd: "overlay init (r(j \<mapsto> st)) = (overlay init r)(j \<mapsto> PyStr st)"
  by (auto simp: overlay_def fun_eq_iff)

lemma overlay_empty: "overlay init Map.empty = init"
  by (simp add: overlay_def)

lemma overlay_preloaded:
  "overlay (map_of (map (\<lambda>job_id. (job_id, PyFalse)) job_ids)) r =
     (\<lambda>j. case r j of
            Some st \<Rightarrow> Some (PyStr st)
          | None \<Rightarrow> if j \<in> set job_ids then Some PyFalse else None)"
proof -
  have "map_of (map (\<lambda>job_id. (job_id, PyFalse)) job_ids) j
          = (if j \<in> set job_ids then Some PyFalse else None)" for j
    by (induction job_ids) auto
  then show ?thesis
    by (simp add: overlay_def fun_eq_iff split: option.splits)
qed

lemma state_rows_step:
  "live_row res line = Inr r \<Longrightarrow>
   state_rows (overlay init res) (line # lines) = state_rows (overlay init r) lines"
  by (cases line)
     (auto simp: live_row_def map_state_eq overlay_upd
           split: list.splits option.splits if_splits)

lemma state_rows_stop:
  "live_row res line = Inl e \<Longrightarrow> state_rows (overlay init res) (line # lines) = overlay init res"
  by (cases line)
     (auto simp: live_row_def map_state_eq split: list.splits option.splits if_splits)

lemma state_rows_prefix:
  "live_rows res good = Inr r \<Longrightarrow>
   state_rows (overlay init res) (good @ more_lines) = state_rows (overlay init r) more_lines"
proof (induction good arbitrary: res)
  case Nil
  then show ?case by simp
next
  case (Cons line lines)
  from Cons.prems obtain r1 where r1: "live_row res line = Inr r1" "live_rows r1 lines = Inr r"
    by (auto split: sum.splits)
  from Cons.IH [OF r1(2)] state_rows_step [OF r1(1)] show ?case by simp
qed

lemma live_rows_prefix:
  "live_rows res good = Inr r \<Longrightarrow> live_rows res (good @ more_lines) = live_rows r more_lines"
  by (induction good arbitrary: res) (auto split: sum.splits)

lemma state_rows_agree:
  "live_rows res stdout = Inr r \<Longrightarrow> state_rows (overlay init res) stdout = overlay init r"
  using state_rows_prefix [of res stdout r init "[]"] by simp

lemma rows_until_raise:
  assumes "live_rows res good = Inr r" "live_row r bad = Inl e"
  shows "live_rows res (good @ bad # rest) = Inl e"
    and "state_rows (overlay init res) (good @ bad # rest) = overlay init r"
  using assms
  by (simp_all add: live_rows_prefix state_rows_prefix state_rows_stop)

text \<open>
  Claim C6, as amended. For a row read as text: code \<open>R\<close> writes \<open>R\<close>, code \<open>PD\<close>
  with a non-empty dependency string writes \<open>H\<close>, code \<open>PD\<close> with an empty one writes
  \<open>Q\<close>; a code that is not in the table raises \<open>KeyError\<close>, and a row that does not
  have three fields raises \<open>ValueError\<close>. Whenever \<open>_live_job_states\<close> returns a
  table, \<open>get_state_of_jobs\<close> returns the same entries, and \<open>False\<close> for every job
  asked about that the table does not list. Whenever a row makes
  \<open>_live_job_states\<close> raise, \<open>get_state_of_jobs\<close> returns the entries of the rows
  before that row, with \<open>False\<close> for the other jobs asked about, whatever rows
  follow.
\<close>

theorem C6_state_mapping:
  "(split_on CHR '';'' (strip t1) = [j1, ''R'', d1] \<longrightarrow>
      live_row res (StrLine t1) = Inr (res(j1 \<mapsto> ''R'')))
 \<and> (split_on CHR '';'' (strip t2) = [j2, ''PD'', d2] \<and> d2 \<noteq> '''' \<longrightarrow>
      live_row res (StrLine t2) = Inr (res(j2 \<mapsto> ''H'')))
 \<and> (split_on CHR '';'' (strip t3) = [j3, ''PD'', ''''] \<longrightarrow>
      live_row res (StrLine t3) = Inr (res(j3 \<mapsto> ''Q'')))
 \<and> (split_on CHR '';'' (strip t4) = [j4, c4, d4] \<and> map_of JOB_STATE_CODES c4 = None \<longrightarrow>
      live_row res (StrLine t4) = Inl KeyError)
 \<and> (length (split_on CHR '';'' (strip t5)) \<noteq> 3 \<longrightarrow>
      live_row res (StrLine t5) = Inl ValueError)
 \<and> (live_job_states_of stdout = Inr r \<longrightarrow>
      get_state_of_jobs job_ids stdout =
        (\<lambda>j. case r j of
               Some st \<Rightarrow> Some (PyStr st)
             | None \<Rightarrow> if j \<in> set job_ids then Some PyFalse else None))
 \<and> (live_job_states_of good = Inr r' \<and> live_row r' bad = Inl e \<longrightarrow>
      live_job_states_of (good @ bad # rest) = Inl e
      \<and> get_state_of_jobs job_ids' (good @ bad # rest) =
          (\<lambda>j. case r' j of
                 Some st \<Rightarrow> Some (PyStr st)
               | None \<Rightarrow> if j \<in> set job_ids' then Some PyFalse else None))"
proof (intro conjI impI)
  assume "live_job_states_of stdout = Inr r"
  then have "live_rows Map.empty stdout = Inr r"
    by (simp add: live_job_states_of_def)
  from state_rows_agree [OF this, of "map_of (map (\<lambda>job_id. (job_id, PyFalse)) job_ids)"]
  show "get_state_of_jobs job_ids stdout =
        (\<lambda>j. case r j of
               Some st \<Rightarrow> Some (PyStr st)
             | None \<Rightarrow> if j \<in> set job_ids then Some PyFalse else None)"
    by (simp add: get_state_of_jobs_def overlay_empty overlay_preloaded)
next
  assume a: "live_job_states_of good = Inr r' \<and> live_row r' bad = Inl e"
  then have g: "live_rows Map.empty good = Inr r'" and b: "live_row r' bad = Inl e"
    by (simp_all add: live_job_states_of_def)
  from rows_until_raise(1) [OF g b] show "live_job_states_of (good @ bad # rest) = Inl e"
    by (simp add: live_job_states_of_def)
  from rows_until_raise(2) [OF g b, of "map_of (map (\<lambda>job_id. (job_id, PyFalse)) job_ids')" rest]
  show "get_state_of_jobs job_ids' (good @ bad # rest) =
          (\<lambda>j. case r' j of
                 Some st \<Rightarrow> Some (PyStr st)
               | None \<Rightarrow> if j \<in> set job_ids' then Some PyFalse else None)"
    by (simp add: get_state_of_jobs_def overlay_empty overlay_preloaded)
next
  assume "length (split_on CHR '';'' (strip t5)) \<noteq> 3"
  then show "live_row res (StrLine t5) = Inl ValueError"
    by (auto simp: live_row_def split: list.splits)
qed (simp_all add: live_row_def JOB_STATE_CODES_def)

lemma live_of_one_row: "live_job_states_of [StrLine ''7;CG;''] = Inr [''7'' \<mapsto> ''R'']"
  by (simp add: live_job_states_of_def live_row_def strip_def is_space_def JOB_STATE_CODES_def)

text \<open>
  Rows for each case; a table of one good row; and a table whose second row has two
  fields only, followed by a third row that neither implementation reads.
\<close>

theorem C6_state_mapping_witness:
  "live_row Map.empty (StrLine ''1;R;'') = Inr [''1'' \<mapsto> ''R'']
 \<and> live_row Map.empty (StrLine ''2;PD;afterok:1'') = Inr [''2'' \<mapsto> ''H'']
 \<and> live_row Map.empty (StrLine ''3;PD;'') = Inr [''3'' \<mapsto> ''Q'']
 \<and> live_row Map.empty (StrLine ''4;ST;'') = Inl KeyError
 \<and> live_row Map.empty (StrLine ''5;R'') = Inl ValueError
 \<and> get_state_of_jobs [''9''] [StrLine ''7;CG;''] ''7'' = Some (PyStr ''R'')
 \<and> get_state_of_jobs [''9''] [StrLine ''7;CG;''] ''9'' = Some PyFalse
 \<and> live_job_states_of [StrLine ''7;CG;'', StrLine ''5;R'', StrLine ''8;R;''] = Inl ValueError
 \<and> get_state_of_jobs [''8''] [StrLine ''7;CG;'', StrLine ''5;R'', StrLine ''8;R;''] ''7''
     = Some (PyStr ''R'')
 \<and> get_state_of_jobs [''8''] [StrLine ''7;CG;'', StrLine ''5;R'', StrLine ''8;R;''] ''8''
     = Some PyFalse"
proof -
  have bad: "live_row [''7'' \<mapsto> ''R''] (StrLine ''5;R'') = Inl ValueError"
    by (simp add: live_row_def strip_def is_space_def)
  from C6_state_mapping [of "''1;R;''" "''1''" "''''" Map.empty
          "''2;PD;afterok:1''" "''2''" "''afterok:1''"
          "''3;PD;''" "''3''" "''4;ST;''" "''4''" "''ST''" "''''" "''5;R''"
          "[StrLine ''7;CG;'']" "[''7'' \<mapsto> ''R'']" "[''9'']"
          "[StrLine ''7;CG;'']" "[''7'' \<mapsto> ''R'']" "StrLine ''5;R''" ValueError
          "[StrLine ''8;R;'']" "[''8'']"]
  show ?thesis
    by (simp add: strip_def is_space_def live_of_one_row bad JOB_STATE_CODES_def)
qed

text \<open>
  A line of bytes, as the pipe gives it under Python 3: \<open>_live_job_states\<close> raises
  \<open>TypeError\<close> where \<open>get_state_of_jobs\<close> returns \<open>False\<close> for the job asked about.
  Lines of text: on a table whose second row has a state code outside the table
  (\<open>ST\<close>), \<open>_live_job_states\<close> raises \<open>KeyError\<close> and returns nothing, while
  \<open>get_state_of_jobs\<close> returns the first row's entry; and asked about a job no row
  lists, \<open>get_state_of_jobs\<close> answers \<open>False\<close> where \<open>_live_job_states\<close> has no entry.
\<close>

theorem C6_implementations_differ:
  "live_job_states_of [BytesLine ''1;R;''] = Inl TypeError
 \<and> get_state_of_jobs [''1''] [BytesLine ''1;R;''] ''1'' = Some PyFalse
 \<and> live_job_states_of [StrLine ''1;R;'', StrLine ''2;ST;''] = Inl KeyError
 \<and> get_state_of_jobs [] [StrLine ''1;R;'', StrLine ''2;ST;''] ''1'' = Some (PyStr ''R'')
 \<and> live_job_states_of [] = Inr Map.empty
 \<and> get_state_of_jobs [''5''] [] ''5'' = Some PyFalse"
  by (simp add: live_job_states_of_def live_row_def get_state_of_jobs_def strip_def is_space_def
        JOB_STATE_CODES_def map_state_def)

section \<open>Cancellation\<close>

text \<open>
  Claim C9, as amended. \<open>SlurmBackend.cancel\<close> never raises. It spawns nothing for a
  target whose job is not in the live-state snapshot, and nothing for a target the
  job database does not know (unless the snapshot lists a job \<open>?\<close>); every command
  it spawns is \<open>scancel -j\<close> on a job the snapshot lists. \<open>LocalOps.cancel_job\<close> raises
  \<open>UnsupportedOperationError\<close> on every job.
\<close>

theorem C9_cancel:
  "(job_db b t = Some j \<and> live_job_states b j = None \<longrightarrow> cancel b t = Inr [])
 \<and> (job_db b t' = None \<and> live_job_states b ''?'' = None \<longrightarrow> cancel b t' = Inr [])
 \<and> (job_db b t'' = Some j'' \<and> live_job_states b j'' \<noteq> None \<longrightarrow>
       cancel b t'' = Inr [[scancel b, ''-j'', j'']])
 \<and> (cancel b u = Inr cmds \<and> cmd \<in> set cmds \<longrightarrow>
       (\<exists>i. cmd = [scancel b, ''-j'', i] \<and> live_job_states b i \<noteq> None))
 \<and> cancel_job job_id = Inl (UnsupportedOperationError ''cancel'')"
  by (auto simp: cancel_def cancel_job_def Let_def split: option.splits if_splits)

theorem C9_cancel_witness:
  "cancel \<lparr>squeue = ''squeue'', sbatch = ''sbatch'', scancel = ''scancel'',
           job_db = [''done'' \<mapsto> ''41'', ''live'' \<mapsto> ''42''],
           live_job_states = [''42'' \<mapsto> ''R'']\<rparr> ''done'' = Inr []
 \<and> cancel \<lparr>squeue = ''squeue'', sbatch = ''sbatch'', scancel = ''scancel'',
           job_db = [''done'' \<mapsto> ''41'', ''live'' \<mapsto> ''42''],
           live_job_states = [''42'' \<mapsto> ''R'']\<rparr> ''never'' = Inr []
 \<and> cancel \<lparr>squeue = ''squeue'', sbatch = ''sbatch'', scancel = ''scancel'',
           job_db = [''done'' \<mapsto> ''41'', ''live'' \<mapsto> ''42''],
           live_job_states = [''42'' \<mapsto> ''R'']\<rparr> ''live'' = Inr [[''scancel'', ''-j'', ''42'']]"
  using C9_cancel [of "\<lparr>squeue = ''squeue'', sbatch = ''sbatch'', scancel = ''scancel'',
           job_db = [''done'' \<mapsto> ''41'', ''live'' \<mapsto> ''42''],
           live_job_states = [''42'' \<mapsto> ''R'']\<rparr>" "''done''" "''41''" "''never''" "''live''" "''42''"]
  by simp

text \<open>The local backend's cancel raises on a job identifier.\<close>

theorem C9_local_cancel_raises:
  "cancel_job ''0f3a'' = Inl (UnsupportedOperationError ''cancel'')"
  by (simp add: cancel_job_def)

section \<open>Submission scripts\<close>

lemma supported_has_flag:
  "option_name \<in> supported_options \<Longrightarrow> \<exists>flag. map_of OPTION_TABLE option_name = Some flag"
  unfolding supported_options_def
  by (metis (no_types) map_of_eq_None_iff not_Some_eq list.set_map)

lemma compile_options_eq:
  "compile_options fmt out opts =
     Inr (out @ map (\<lambda>(k, v). directive fmt k v)
                    (filter (\<lambda>(k, v). k \<in> supported_options) opts))"
proof (induction opts arbitrary: out)
  case Nil
  then show ?case by simp
next
  case (Cons kv opts)
  obtain k v where kv: "kv = (k, v)" by (cases kv)
  show ?case
  proof (cases "k \<in> supported_options")
    case True
    then obtain flag where "map_of OPTION_TABLE k = Some flag"
      using supported_has_flag by blast
    with True show ?thesis
      by (simp add: kv Cons.IH directive_def)
  next
    case False
    then show ?thesis by (simp add: kv Cons.IH)
  qed
qed

lemma header_flags:
  "directive fmt ''nodes'' v = ''#SBATCH -N '' @ fmt v"
  "directive fmt ''cores'' v = ''#SBATCH -c '' @ fmt v"
  "directive fmt ''memory'' v = ''#SBATCH --mem='' @ fmt v"
  "directive fmt ''walltime'' v = ''#SBATCH -t '' @ fmt v"
  "directive fmt ''queue'' v = ''#SBATCH -p '' @ fmt v"
  "directive fmt ''account'' v = ''#SBATCH -A '' @ fmt v"
  "directive fmt ''constraint'' v = ''#SBATCH -C '' @ fmt v"
  "directive fmt ''mail_type'' v = ''#SBATCH --mail-type='' @ fmt v"
  "directive fmt ''mail_user'' v = ''#SBATCH --mail-user='' @ fmt v"
  by (simp_all add: directive_def OPTION_TABLE_def)

lemma write_script_header_fixed:
  assumes "options ''nodes'' \<noteq> None" "options ''cores'' \<noteq> None"
    "options ''memory'' \<noteq> None" "options ''walltime'' \<noteq> None"
  shows "write_script_header fmt options = Inr (fixed_order_directives fmt options)"
  using assms
  by (auto simp: write_script_header_def fixed_order_directives_def directive_order_def
        header_flags split: option.splits)

text \<open>
  Claim C7, as amended. The script of \<open>_compile_script\<close> is the interpreter line, then
  one directive line for each option of the target whose key is in the option table,
  in the order in which the target's options are iterated (options with other keys
  give no line), then the trailer: the blank line, the marker, the change of
  directory, the two exports, \<open>set -e\<close>, a blank line and the raw spec. The fixed
  order nodes, cores, memory, walltime, queue, account, constraint, mail type, mail
  user is the order of \<open>write_script_header\<close>, whenever the four mandatory options
  are given.
\<close>

theorem C7_script_layout:
  "compile_script fmt target =
     Inr (join [CHR 0x0A]
            ([''#!/bin/bash'']
             @ map (\<lambda>(k, v). directive fmt k v)
                   (filter (\<lambda>(k, v). k \<in> supported_options) (target_options target))
             @ script_trailer target))
 \<and> (options ''nodes'' \<noteq> None \<and> options ''cores'' \<noteq> None
      \<and> options ''memory'' \<noteq> None \<and> options ''walltime'' \<noteq> None \<longrightarrow>
      write_script_header fmt options = Inr (fixed_order_directives fmt options))"
  by (simp add: compile_script_def compile_options_eq script_trailer_def write_script_header_fixed)

theorem C7_script_layout_witness:
  "compile_script (\<lambda>v. v)
     \<lparr>target_name = ''t'', target_working_dir = ''/w'', target_spec = ''true'',
      target_options = [(''walltime'', ''1''), (''colour'', ''red''), (''cores'', ''2'')]\<rparr>
   = Inr (join [CHR 0x0A]
       [''#!/bin/bash'', ''#SBATCH -t 1'', ''#SBATCH -c 2'', '''', ''### Generated by GWF'',
        ''cd /w'', ''export GWF_JOBID=$SLURM_JOBID'', ''export GWF_TARGET_NAME=\"t\"'',
        ''set -e'', '''', ''true''])
 \<and> write_script_header (\<lambda>v. v)
       [''walltime'' \<mapsto> ''1'', ''queue'' \<mapsto> ''q'', ''memory'' \<mapsto> ''1g'', ''cores'' \<mapsto> ''2'', ''nodes'' \<mapsto> ''1'']
   = Inr [''#SBATCH -N 1'', ''#SBATCH -c 2'', ''#SBATCH --mem=1g'', ''#SBATCH -t 1'', ''#SBATCH -p q'']"
  using C7_script_layout [of "\<lambda>v. v"
     "\<lparr>target_name = ''t'', target_working_dir = ''/w'', target_spec = ''true'',
      target_options = [(''walltime'', ''1''), (''colour'', ''red''), (''cores'', ''2'')]\<rparr>"
     "[''walltime'' \<mapsto> ''1'', ''queue'' \<mapsto> ''q'', ''memory'' \<mapsto> ''1g'', ''cores'' \<mapsto> ''2'', ''nodes'' \<mapsto> ''1'']"]
  by (simp add: supported_options_def OPTION_TABLE_def header_flags script_trailer_def
        fixed_order_directives_def directive_order_def)

text \<open>
  For a target whose options give the walltime before the cores, the script of
  \<open>_compile_script\<close> is not the one with the directives in the fixed order.
\<close>

theorem C7_directives_follow_options_order:
  "compile_script (\<lambda>v. v)
     \<lparr>target_name = ''t'', target_working_dir = ''/w'', target_spec = ''true'',
      target_options = [(''walltime'', ''1''), (''cores'', ''2'')]\<rparr>
   \<noteq> Inr (join [CHR 0x0A]
        ([''#!/bin/bash'']
         @ fixed_order_directives (\<lambda>v. v) (map_of [(''walltime'', ''1''), (''cores'', ''2'')])
         @ script_trailer
             \<lparr>target_name = ''t'', target_working_dir = ''/w'', target_spec = ''true'',
              target_options = [(''walltime'', ''1''), (''cores'', ''2'')]\<rparr>))"
  by (simp add: compile_script_def supported_options_def OPTION_TABLE_def
        fixed_order_directives_def directive_order_def directive_def script_trailer_def)

section \<open>The scheduling pass\<close>

lemma ready_task_Cons: "ready_task s rest m \<Longrightarrow> ready_task s (tid # rest) m"
  unfolding ready_task_def by auto

lemma loop_outbox:
  "\<exists>new. outbox (pass_of (schedule_loop s order p)) = outbox p @ new \<and>
     (\<forall>x \<in> set new. ready_task s order (snd x))"
proof (induction order arbitrary: p)
  case Nil
  show ?case by (simp add: pass_of_def)
next
  case (Cons tid rest)
  show ?case
  proof (cases "tasks s tid")
    case None
    then show ?thesis by (simp add: pass_of_def)
  next
    case (Some task)
    show ?thesis
    proof (cases "\<exists>d \<in> dependencies task. task_states s d = Some FAILED")
      case True
      have eq: "schedule_loop s (tid # rest) p
                  = schedule_loop s rest (p\<lparr>failed_tasks := insert tid (failed_tasks p)\<rparr>)"
        using Some True by simp
      from Cons.IH [of "p\<lparr>failed_tasks := insert tid (failed_tasks p)\<rparr>"]
      obtain new where "outbox (pass_of (schedule_loop s (tid # rest) p)) = outbox p @ new"
        "\<forall>x \<in> set new. ready_task s rest (snd x)"
        unfolding eq by auto
      then show ?thesis using ready_task_Cons by blast
    next
      case notfailed: False
      show ?thesis
      proof (cases "\<exists>d \<in> dependencies task. task_states s d \<noteq> Some COMPLETED")
        case True
        have eq: "schedule_loop s (tid # rest) p = schedule_loop s rest p"
          using Some notfailed True by simp
        from Cons.IH [of p]
        obtain new where "outbox (pass_of (schedule_loop s (tid # rest) p)) = outbox p @ new"
          "\<forall>x \<in> set new. ready_task s rest (snd x)"
          unfolding eq by auto
        then show ?thesis using ready_task_Cons by blast
      next
        case ready: False
        show ?thesis
        proof (cases "find (\<lambda>(worker_id, worker). worker_id \<notin> set (map snd (used_workers s)))
                          (joined_workers s)")
          case None
          have eq: "schedule_loop s (tid # rest) p = schedule_loop s rest p"
            using Some notfailed ready None by simp
          from Cons.IH [of p]
          obtain new where "outbox (pass_of (schedule_loop s (tid # rest) p)) = outbox p @ new"
            "\<forall>x \<in> set new. ready_task s rest (snd x)"
            unfolding eq by auto
          then show ?thesis using ready_task_Cons by blast
        next
          case found: (Some wc)
          obtain w c where wc: "wc = (w, c)" by (cases wc)
          let ?p' = "p\<lparr>pass_used_workers := AList.update tid w (pass_used_workers p),
                        scheduled_tasks := insert tid (scheduled_tasks p),
                        outbox := outbox p @ [(c, RunTask task)]\<rparr>"
          have eq: "schedule_loop s (tid # rest) p = schedule_loop s rest ?p'"
            using Some notfailed ready found wc by simp
          from Cons.IH [of ?p']
          obtain new where new: "outbox (pass_of (schedule_loop s (tid # rest) p))
                                   = outbox p @ ((c, RunTask task) # new)"
            "\<forall>x \<in> set new. ready_task s rest (snd x)"
            unfolding eq by auto
          have "ready_task s (tid # rest) (RunTask task)"
            unfolding ready_task_def using Some ready by auto
          with new(2) have "\<forall>x \<in> set ((c, RunTask task) # new). ready_task s (tid # rest) (snd x)"
            using ready_task_Cons by auto
          with new(1) show ?thesis by blast
        qed
      qed
    qed
  qed
qed

lemma schedule_once_sent:
  "\<exists>new. sent (state_of (schedule_once order s)) = sent s @ new \<and>
     (\<forall>x \<in> set new. ready_task s order (snd x))"
proof -
  let ?p0 = "\<lparr>failed_tasks = {}, scheduled_tasks = {}, pass_used_workers = [], outbox = []\<rparr>"
  have "sent (state_of (schedule_once order s)) = sent s @ outbox (pass_of (schedule_loop s order ?p0))"
    by (simp add: schedule_once_def state_of_def pass_of_def split: sum.splits prod.splits)
  with loop_outbox [of s order ?p0] show ?thesis by simp
qed


section \<open>The server on concrete event sequences\<close>

lemmas server_eval = handle_join_worker_def handle_leave_worker_def handle_update_task_state_def
  handle_get_task_states_def handle_submit_task_def handle_close_def schedule_once_def
  init_server_def state_of_def raised_def iterates_def status_of_name_def Let_def

text \<open>
  Claim C1. Two tasks without dependencies are submitted while no worker has joined,
  then one worker joins. Every order is an enumeration of the pending set and no
  handler raises. The pass that follows the join looks for a free worker in
  \<open>self._used_workers\<close>, which it updates only after its loop, so it gives both
  tasks to that one worker: the assignment table maps \<open>t1\<close> and \<open>t2\<close> to \<open>w1\<close>, and
  two \<open>run_task\<close> messages go out on the worker's connection.
\<close>

theorem C1_two_tasks_one_worker:
  "raised (run [(1, SubmitTask ''t1'' ''first'' ''/w'' ''true'' [] ''o1'' ''e1'', [''t1'']),
                (1, SubmitTask ''t2'' ''second'' ''/w'' ''true'' [] ''o2'' ''e2'', [''t1'', ''t2'']),
                (7, JoinWorker ''w1'', [''t1'', ''t2''])] init_server) = None
 \<and> valid_run [(1, SubmitTask ''t1'' ''first'' ''/w'' ''true'' [] ''o1'' ''e1'', [''t1'']),
                (1, SubmitTask ''t2'' ''second'' ''/w'' ''true'' [] ''o2'' ''e2'', [''t1'', ''t2'']),
                (7, JoinWorker ''w1'', [''t1'', ''t2''])] init_server
 \<and> used_workers (state_of (run
               [(1, SubmitTask ''t1'' ''first'' ''/w'' ''true'' [] ''o1'' ''e1'', [''t1'']),
                (1, SubmitTask ''t2'' ''second'' ''/w'' ''true'' [] ''o2'' ''e2'', [''t1'', ''t2'']),
                (7, JoinWorker ''w1'', [''t1'', ''t2''])] init_server))
     = [(''t1'', ''w1''), (''t2'', ''w1'')]
 \<and> map (\<lambda>(c, m). (c, case m of RunTask t \<Rightarrow> task_id t | _ \<Rightarrow> ''''))
        (sent (state_of (run
               [(1, SubmitTask ''t1'' ''first'' ''/w'' ''true'' [] ''o1'' ''e1'', [''t1'']),
                (1, SubmitTask ''t2'' ''second'' ''/w'' ''true'' [] ''o2'' ''e2'', [''t1'', ''t2'']),
                (7, JoinWorker ''w1'', [''t1'', ''t2''])] init_server)))
     = [(7, ''t1''), (7, ''t2'')]"
  by (simp add: server_eval insert_commute)

section \<open>Terminal updates\<close>

text \<open>
  A report of \<open>COMPLETED\<close> for a task that was never dispatched raises \<open>KeyError\<close>,
  and at the raise the state table already holds \<open>COMPLETED\<close> for the task.
\<close>

theorem C10_state_recorded_before_raise:
  "raised (handle_update_task_state [] 7 ''t1'' ''COMPLETED'' init_server) = Some KeyError
 \<and> task_states init_server ''t1'' = None
 \<and> task_states (state_of (handle_update_task_state [] 7 ''t1'' ''COMPLETED'' init_server)) ''t1''
     = Some COMPLETED"
  by (simp add: server_eval)

text \<open>
  Claim C10, as amended. For a terminal state and a task with no entry in the
  assignment table, \<open>handle_update_task_state\<close> raises \<open>KeyError\<close> after it has
  written the state into the state table, and before any scheduling pass; a terminal
  update returns without an exception only for a task that has an entry.
\<close>

theorem C10_terminal_update_needs_assignment:
  "(status_of_name new_state = Some st \<and> (st = COMPLETED \<or> st = FAILED)
      \<and> map_of (used_workers s) tid = None \<longrightarrow>
      handle_update_task_state order conn tid new_state s
        = Inl (KeyError, s\<lparr>task_states := (task_states s)(tid \<mapsto> st)\<rparr>))
 \<and> (status_of_name new_state' = Some st' \<and> (st' = COMPLETED \<or> st' = FAILED)
      \<and> raised (handle_update_task_state order' conn' tid' new_state' s') = None \<longrightarrow>
      map_of (used_workers s') tid' \<noteq> None)"
  by (auto simp: handle_update_task_state_def Let_def raised_def split: option.splits)


section \<open>Failure of a dependency\<close>

lemma loop_failed_mono:
  "schedule_loop s order p = Inr p' \<Longrightarrow> failed_tasks p \<subseteq> failed_tasks p'"
proof (induction order arbitrary: p)
  case Nil
  then show ?case by simp
next
  case (Cons tid rest)
  then show ?case
    by (fastforce split: option.splits if_splits prod.splits)
qed

lemma loop_failed:
  "schedule_loop s order p = Inr p' \<Longrightarrow> tid \<in> set order \<Longrightarrow> tasks s tid = Some task \<Longrightarrow>
   \<exists>d \<in> dependencies task. task_states s d = Some FAILED \<Longrightarrow> tid \<in> failed_tasks p'"
proof (induction order arbitrary: p)
  case Nil
  then show ?case by simp
next
  case (Cons t rest)
  show ?case
  proof (cases "t = tid")
    case True
    with Cons.prems have "schedule_loop s rest (p\<lparr>failed_tasks := insert tid (failed_tasks p)\<rparr>) = Inr p'"
      by simp
    from loop_failed_mono [OF this] show ?thesis by simp
  next
    case False
    with Cons.prems have in_rest: "tid \<in> set rest" by simp
    from Cons.prems(1) obtain q where "schedule_loop s rest q = Inr p'"
      by (auto split: option.splits if_splits prod.splits)
    from Cons.IH [OF this in_rest Cons.prems(3,4)] show ?thesis .
  qed
qed

lemma loop_no_raise:
  "\<forall>t \<in> set order. tasks s t \<noteq> None \<Longrightarrow> \<exists>p'. schedule_loop s order p = Inr p'"
proof (induction order arbitrary: p)
  case Nil
  then show ?case by simp
next
  case (Cons t rest)
  then show ?case
    by (auto split: option.splits prod.splits)
qed

text \<open>
  What a pass does for a direct dependency. In a server whose pending tasks are all
  in the task table, each under its own identifier, a scheduling pass does not raise,
  marks \<open>FAILED\<close> every pending task that has a direct dependency in state \<open>FAILED\<close>,
  removes it from the pending set, and sends no \<open>run_task\<close> for it.
\<close>

lemma direct_dependency_failure:
  assumes order: "iterates order (pending_tasks s)"
    and pending: "tid \<in> pending_tasks s"
    and task: "tasks s tid = Some task"
    and dep: "d \<in> dependencies task" "task_states s d = Some FAILED"
    and known: "\<forall>k \<in> pending_tasks s. tasks s k \<noteq> None"
    and ids: "\<forall>k t. tasks s k = Some t \<longrightarrow> task_id t = k"
  shows "raised (schedule_once order s) = None
       \<and> task_states (state_of (schedule_once order s)) tid = Some FAILED
       \<and> tid \<notin> pending_tasks (state_of (schedule_once order s))
       \<and> (\<exists>new. sent (state_of (schedule_once order s)) = sent s @ new
             \<and> (\<forall>c t. (c, RunTask t) \<in> set new \<longrightarrow> task_id t \<noteq> tid))"
proof -
  let ?p0 = "\<lparr>failed_tasks = {}, scheduled_tasks = {}, pass_used_workers = [], outbox = []\<rparr>"
  have set_order: "set order = pending_tasks s"
    using order by (simp add: iterates_def)
  with known have "\<forall>t \<in> set order. tasks s t \<noteq> None" by simp
  from loop_no_raise [OF this] obtain p' where p': "schedule_loop s order ?p0 = Inr p'"
    by blast
  have failed: "tid \<in> failed_tasks p'"
    using loop_failed [OF p' _ task] pending set_order dep by blast
  have a: "raised (schedule_once order s) = None"
    by (simp add: schedule_once_def p' raised_def)
  have b: "task_states (state_of (schedule_once order s)) tid = Some FAILED"
    using failed by (simp add: schedule_once_def p' state_of_def)
  have c: "tid \<notin> pending_tasks (state_of (schedule_once order s))"
    using failed by (simp add: schedule_once_def p' state_of_def)
  from schedule_once_sent [of order s] obtain new where
    new: "sent (state_of (schedule_once order s)) = sent s @ new"
      "\<forall>x \<in> set new. ready_task s order (snd x)"
    by blast
  have "task_id t \<noteq> tid" if "(c, RunTask t) \<in> set new" for c t
  proof
    assume eq: "task_id t = tid"
    from new(2) that have "ready_task s order (RunTask t)" by force
    then obtain k where k: "tasks s k = Some t"
      "\<not> (\<exists>d \<in> dependencies t. task_states s d \<noteq> Some COMPLETED)"
      by (auto simp: ready_task_def)
    with ids eq have "k = tid" by auto
    with k task have "t = task" by simp
    with k(2) dep show False by auto
  qed
  with new(1) a b c show ?thesis by blast
qed


section \<open>Dispatch after the dependencies\<close>

lemma logged_append: "logged pre d \<Longrightarrow> logged (pre @ post) d"
  unfolding logged_def by auto

lemma completed_logged_append: "completed_logged pre s \<Longrightarrow> completed_logged (pre @ post) s"
  unfolding completed_logged_def using logged_append by blast

lemma schedule_once_states:
  "task_states (state_of (schedule_once order s)) d = Some COMPLETED \<Longrightarrow>
   task_states s d = Some COMPLETED"
  by (auto simp: schedule_once_def state_of_def split: sum.splits prod.splits if_splits)

lemma schedule_once_logged:
  assumes "completed_logged events s"
  shows "completed_logged events (state_of (schedule_once order s))"
proof -
  from schedule_once_sent [of order s] obtain new where
    new: "sent (state_of (schedule_once order s)) = sent s @ new"
      "\<forall>x \<in> set new. ready_task s order (snd x)"
    by blast
  have "logged events d"
    if "(c, RunTask task) \<in> set (sent (state_of (schedule_once order s)))" "d \<in> dependencies task"
    for c task d
  proof (cases "(c, RunTask task) \<in> set (sent s)")
    case True
    with assms that(2) show ?thesis unfolding completed_logged_def by blast
  next
    case False
    with that(1) new(1) have "(c, RunTask task) \<in> set new" by simp
    with new(2) have "ready_task s order (RunTask task)" by force
    with that(2) have "task_states s d = Some COMPLETED"
      by (auto simp: ready_task_def)
    with assms show ?thesis unfolding completed_logged_def by blast
  qed
  moreover have "logged events d" if "task_states (state_of (schedule_once order s)) d = Some COMPLETED" for d
    using schedule_once_states [OF that] assms unfolding completed_logged_def by blast
  ultimately show ?thesis unfolding completed_logged_def by blast
qed

lemma status_of_name_COMPLETED: "status_of_name n = Some COMPLETED \<Longrightarrow> n = ''COMPLETED''"
  by (simp add: status_of_name_def split: if_splits)

lemma handle_logged:
  assumes inv: "completed_logged pre s"
    and step: "handle conn msg order s = Inr s'"
  shows "completed_logged (pre @ [(conn, msg, order)]) s'"
proof -
  let ?ev = "pre @ [(conn, msg, order)]"
  have inv': "completed_logged ?ev s"
    using inv by (rule completed_logged_append)
  have pass: "completed_logged ?ev s1 \<Longrightarrow> schedule_once order s1 = Inr s' \<Longrightarrow> completed_logged ?ev s'" for s1
    using schedule_once_logged [of ?ev s1 order] by (simp add: state_of_def)
  show ?thesis
  proof (cases msg)
    case (JoinWorker w)
    have "completed_logged ?ev (s\<lparr>joined_workers := AList.update w conn (joined_workers s)\<rparr>)"
      using inv' by (simp add: completed_logged_def)
    then show ?thesis using step JoinWorker pass by (simp add: handle_join_worker_def)
  next
    case (LeaveWorker w)
    then show ?thesis using step inv'
      by (auto simp: handle_leave_worker_def completed_logged_def split: option.splits)
  next
    case (SubmitTask tid nm wd sp deps op ep)
    let ?s1 = "s\<lparr>tasks := (tasks s)(tid \<mapsto> \<lparr>task_id = tid, name = nm, working_dir = wd, spec = sp,
                  dependencies = set deps, stdout_path = op, stderr_path = ep\<rparr>),
              task_states := (task_states s)(tid \<mapsto> SUBMITTED),
              pending_tasks := insert tid (pending_tasks s)\<rparr>"
    have "completed_logged ?ev ?s1"
      using inv' by (simp add: completed_logged_def)
    then show ?thesis using step SubmitTask pass [of ?s1]
      by (simp add: handle_submit_task_def Let_def)
  next
    case (UpdateTaskState tid ns)
    from step UpdateTaskState obtain st where st: "status_of_name ns = Some st"
      by (auto simp: handle_update_task_state_def split: option.splits)
    let ?s1 = "s\<lparr>task_states := (task_states s)(tid \<mapsto> st)\<rparr>"
    have "logged ?ev tid" if "st = COMPLETED"
      using that st status_of_name_COMPLETED UpdateTaskState unfolding logged_def by auto
    then have s1: "completed_logged ?ev ?s1"
      using inv' by (auto simp: completed_logged_def)
    then have s2: "completed_logged ?ev (?s1\<lparr>used_workers := AList.delete tid (used_workers ?s1)\<rparr>)"
      by (simp add: completed_logged_def)
    show ?thesis
      using step UpdateTaskState st s1 s2 pass
      by (auto simp: handle_update_task_state_def Let_def split: option.splits if_splits)
  next
    case GetTaskStates
    then show ?thesis using step inv'
      by (auto simp: handle_get_task_states_def completed_logged_def)
  next
    case Close
    then show ?thesis using step inv'
      by (auto simp: handle_close_def completed_logged_def)
  next
    case (TaskStates m)
    then show ?thesis using step by simp
  next
    case (RunTask t)
    then show ?thesis using step by simp
  next
    case Shutdown
    then show ?thesis using step by simp
  qed
qed

lemma run_logged:
  "completed_logged pre s \<Longrightarrow> run events s = Inr s' \<Longrightarrow> completed_logged (pre @ events) s'"
proof (induction events arbitrary: pre s)
  case Nil
  then show ?case by simp
next
  case (Cons ev events)
  obtain conn msg order where ev: "ev = (conn, msg, order)" by (cases ev)
  from Cons.prems(2) obtain s1 where s1: "handle conn msg order s = Inr s1" "run events s1 = Inr s'"
    by (auto simp: ev split: sum.splits)
  from handle_logged [OF Cons.prems(1) s1(1)] have "completed_logged (pre @ [ev]) s1"
    by (simp add: ev)
  from Cons.IH [OF this s1(2)] show ?case by simp
qed

text \<open>
  Claim C3. After any sequence of events the server handles without an exception,
  every dependency of every task it has sent a \<open>run_task\<close> for has an
  \<open>update_task_state\<close> event to \<open>COMPLETED\<close> among the events handled; this holds
  of every prefix, so the event comes before the dispatch. And every task a
  scheduling pass dispatches has all its dependencies in state \<open>COMPLETED\<close>, hence
  none in state \<open>FAILED\<close>, in the state the pass starts from.
\<close>

theorem C3_dispatch_after_dependencies:
  "(run events init_server = Inr s \<and> (conn, RunTask task) \<in> set (sent s)
      \<and> d \<in> dependencies task \<longrightarrow>
      (\<exists>c order. (c, UpdateTaskState d ''COMPLETED'', order) \<in> set events))
 \<and> (sent (state_of (schedule_once order' s')) = sent s' @ new
      \<and> (conn', RunTask task') \<in> set new \<and> d' \<in> dependencies task' \<longrightarrow>
      task_states s' d' = Some COMPLETED \<and> task_states s' d' \<noteq> Some FAILED)"
proof (intro conjI impI)
  assume a: "run events init_server = Inr s \<and> (conn, RunTask task) \<in> set (sent s)
      \<and> d \<in> dependencies task"
  have "completed_logged [] init_server"
    by (simp add: completed_logged_def init_server_def)
  from run_logged [OF this, of events s] a have "completed_logged events s" by simp
  with a have "logged events d" unfolding completed_logged_def by blast
  then show "\<exists>c order. (c, UpdateTaskState d ''COMPLETED'', order) \<in> set events"
    by (simp add: logged_def)
next
  assume b: "sent (state_of (schedule_once order' s')) = sent s' @ new
      \<and> (conn', RunTask task') \<in> set new \<and> d' \<in> dependencies task'"
  from schedule_once_sent [of order' s'] obtain new' where
    new': "sent (state_of (schedule_once order' s')) = sent s' @ new'"
      "\<forall>x \<in> set new'. ready_task s' order' (snd x)"
    by blast
  with b have "new' = new" by simp
  with new'(2) b have "ready_task s' order' (RunTask task')" by force
  with b have c: "task_states s' d' = Some COMPLETED"
    by (auto simp: ready_task_def)
  then show "task_states s' d' = Some COMPLETED" .
  from c show "task_states s' d' \<noteq> Some FAILED" by simp
qed


section \<open>The scenarios\<close>

lemmas scenario_eval = server_eval task_A_def task_B_def task_C_def two_task_events_def
  chain_events_def two_task_state_def

text \<open>
  Claim C4. The chain \<open>A\<close>, \<open>B\<close>, \<open>C\<close>: the three tasks are submitted, a worker
  joins and is given \<open>A\<close>, and reports \<open>A\<close> running and then failed. Every order
  enumerates the pending set and no handler raises. The pass that follows the report
  reads the direct dependencies only, against the states as they were when it
  started: it marks \<open>B\<close> failed, and leaves \<open>C\<close>, whose ancestor \<open>A\<close> has failed,
  in state \<open>SUBMITTED\<close> and in the pending set. A request for the task states does
  not run a pass: the reply to the client still has \<open>C\<close> as \<open>SUBMITTED\<close>.
\<close>

theorem C4_indirect_dependent_stays_pending:
  "raised (run chain_events init_server) = None
 \<and> valid_run (chain_events @ [(1, GetTaskStates, [''C''])]) init_server
 \<and> tasks (state_of (run chain_events init_server)) ''C'' = Some task_C
 \<and> dependencies task_C = {''B''}
 \<and> tasks (state_of (run chain_events init_server)) ''B'' = Some task_B
 \<and> dependencies task_B = {''A''}
 \<and> task_states (state_of (run chain_events init_server)) ''A'' = Some FAILED
 \<and> task_states (state_of (run chain_events init_server)) ''B'' = Some FAILED
 \<and> task_states (state_of (run chain_events init_server)) ''C'' = Some SUBMITTED
 \<and> ''C'' \<in> pending_tasks (state_of (run chain_events init_server))
 \<and> (case snd (last (sent (state_of
            (run (chain_events @ [(1, GetTaskStates, [''C''])]) init_server)))) of
       TaskStates reply \<Rightarrow> [reply ''A'', reply ''B'', reply ''C'']
     | _ \<Rightarrow> [])
    = [Some ''FAILED'', Some ''FAILED'', Some ''SUBMITTED'']"
  by (auto simp: scenario_eval)

text \<open>
  Two tasks, \<open>B\<close> depending on \<open>A\<close>, and \<open>A\<close> fails: \<open>B\<close> is marked failed and the
  only \<open>run_task\<close> ever sent is the one for \<open>A\<close>. In the chain of three, \<open>C\<close> is
  marked failed by the pass of the next event, here a second worker joining.
\<close>

lemma direct_dependency_failure_example:
  "iterates [''B''] (pending_tasks (two_task_state FAILED))
 \<and> tasks (two_task_state FAILED) ''B'' = Some task_B
 \<and> task_states (two_task_state FAILED) ''A'' = Some FAILED
 \<and> task_states (state_of (schedule_once [''B''] (two_task_state FAILED))) ''B'' = Some FAILED
 \<and> ''B'' \<notin> pending_tasks (state_of (schedule_once [''B''] (two_task_state FAILED)))
 \<and> sent (state_of (schedule_once [''B''] (two_task_state FAILED))) = [(7, RunTask task_A)]
 \<and> task_states (state_of (run (two_task_events @ [(7, UpdateTaskState ''A'' ''FAILED'', [''B''])])
                      init_server)) ''B'' = Some FAILED
 \<and> sent (state_of (run (two_task_events @ [(7, UpdateTaskState ''A'' ''FAILED'', [''B''])])
                      init_server)) = [(7, RunTask task_A)]
 \<and> task_states (state_of (run (chain_events @ [(8, JoinWorker ''w2'', [''C''])]) init_server)) ''C''
     = Some FAILED"
proof -
  have h1: "iterates [''B''] (pending_tasks (two_task_state FAILED))"
    by (simp add: scenario_eval)
  have h2: "''B'' \<in> pending_tasks (two_task_state FAILED)"
    by (simp add: scenario_eval)
  have h3: "tasks (two_task_state FAILED) ''B'' = Some task_B"
    by (simp add: scenario_eval)
  have h4: "''A'' \<in> dependencies task_B"
    by (simp add: scenario_eval)
  have h5: "task_states (two_task_state FAILED) ''A'' = Some FAILED"
    by (simp add: scenario_eval)
  have h6: "\<forall>k \<in> pending_tasks (two_task_state FAILED). tasks (two_task_state FAILED) k \<noteq> None"
    by (simp add: scenario_eval)
  have h7: "\<forall>k t. tasks (two_task_state FAILED) k = Some t \<longrightarrow> task_id t = k"
    by (auto simp: scenario_eval split: if_splits)
  from direct_dependency_failure [OF h1 h2 h3 h4 h5 h6 h7] h1 h3 h5 show ?thesis
    by (simp add: scenario_eval)
qed

text \<open>
  Two tasks, \<open>B\<close> depending on \<open>A\<close>, and \<open>A\<close> completes: \<open>B\<close> is dispatched by the
  pass that follows the report.
\<close>

theorem C3_dispatch_after_dependencies_witness:
  "run (two_task_events @ [(7, UpdateTaskState ''A'' ''COMPLETED'', [''B''])]) init_server
     = Inr (state_of (run (two_task_events @ [(7, UpdateTaskState ''A'' ''COMPLETED'', [''B''])])
                        init_server))
 \<and> (7, RunTask task_B) \<in> set (sent (state_of
        (run (two_task_events @ [(7, UpdateTaskState ''A'' ''COMPLETED'', [''B''])]) init_server)))
 \<and> (7, UpdateTaskState ''A'' ''COMPLETED'', [''B''])
      \<in> set (two_task_events @ [(7, UpdateTaskState ''A'' ''COMPLETED'', [''B''])])
 \<and> sent (state_of (schedule_once [''B''] (two_task_state COMPLETED)))
     = sent (two_task_state COMPLETED) @ [(7, RunTask task_B)]
 \<and> task_states (two_task_state COMPLETED) ''A'' = Some COMPLETED"
  using C3_dispatch_after_dependencies
    [of "two_task_events @ [(7, UpdateTaskState ''A'' ''COMPLETED'', [''B''])]"
        "state_of (run (two_task_events @ [(7, UpdateTaskState ''A'' ''COMPLETED'', [''B''])])
                        init_server)"
        7 task_B "''A''" "[''B'']" "two_task_state COMPLETED" "[(7, RunTask task_B)]" 7 task_B "''A''"]
  by (simp add: scenario_eval)

text \<open>
  A report of \<open>FAILED\<close> for a task without an assignment, and a report of
  \<open>COMPLETED\<close> for a task that has one.
\<close>

theorem C10_terminal_update_needs_assignment_witness:
  "handle_update_task_state [] 7 ''A'' ''FAILED'' init_server
     = Inl (KeyError, init_server\<lparr>task_states := [''A'' \<mapsto> FAILED]\<rparr>)
 \<and> raised (handle_update_task_state [''B''] 7 ''A'' ''COMPLETED''
             ((two_task_state RUNNING)\<lparr>used_workers := [(''A'', ''w1'')]\<rparr>)) = None
 \<and> map_of (used_workers ((two_task_state RUNNING)\<lparr>used_workers := [(''A'', ''w1'')]\<rparr>)) ''A''
     = Some ''w1''"
  using C10_terminal_update_needs_assignment
    [of "''FAILED''" FAILED init_server "''A''" "[]" 7
        "''COMPLETED''" COMPLETED "[''B'']" 7 "''A''"
        "(two_task_state RUNNING)\<lparr>used_workers := [(''A'', ''w1'')]\<rparr>"]
  by (simp add: scenario_eval)

section \<open>The worker\<close>





lemma wrote_simps [simp]:
  "connection (wrote w msgs) = (connection w)\<lparr>written := written (connection w) @ msgs\<rparr>"
  "shutdown_requested (wrote w msgs) = shutdown_requested w"
  "worker_id (wrote w msgs) = worker_id w"
  "wrote (wrote w a) b = wrote w (a @ b)"
  "wrote (w\<lparr>shutdown_requested := f\<rparr>) msgs = (wrote w msgs)\<lparr>shutdown_requested := f\<rparr>"
  by (simp_all add: wrote_def)

lemma reliable_written [simp]: "reliable (c\<lparr>written := x\<rparr>) = reliable c"
  by (simp add: reliable_def)












end
